theory Spec2Isabelle
  imports Main "HOL-Library.Multiset"
begin

section \<open>Platform responses\<close>

text \<open>
  Every call of the platform client resolves to an object with a \<open>data\<close> and an
  \<open>error\<close> field, either of which may be null. An error carries a code; the code
  \<open>PGRST116\<close> is the one a single-row lookup gets when no row matches.
\<close>

record perror =
  code :: string

record 'a response =
  data :: "'a option"
  error :: "perror option"

definition ok :: "'a \<Rightarrow> 'a response" where
  "ok d = \<lparr>data = Some d, error = None\<rparr>"

definition failed :: "perror \<Rightarrow> 'a response" where
  "failed e = \<lparr>data = None, error = Some e\<rparr>"

text \<open>JavaScript truthiness of an optional string: undefined and the empty string are falsy.\<close>

definition truthy :: "string option \<Rightarrow> bool" where
  "truthy s = (case s of None \<Rightarrow> False | Some v \<Rightarrow> v \<noteq> [])"

section \<open>PostCard: the optimistic like toggle\<close>

text \<open>
  The three pieces of component state that \<open>handleLike\<close> reads and writes. The counter is
  a JavaScript number holding a row count; it is modelled as an integer.
\<close>

record card =
  isLiked :: bool
  likesCount :: int
  isLiking :: bool

text \<open>The mutation \<open>handleLike\<close> awaits: \<open>likesApi.likePost\<close> or \<open>likesApi.unlikePost\<close>, with post and user id.\<close>

datatype mutation = LikePost string string | UnlikePost string string

text \<open>The values the handler captures before the optimistic update.\<close>

record captured =
  previousLiked :: bool
  previousCount :: int

text \<open>
  \<open>handleLike\<close> up to its \<open>await\<close>: the guard, the capture, the optimistic update and the
  choice of the mutation. \<open>user\<close> is the id of the signed-in user, if any. The result is
  the new component state and, unless the guard returned, the mutation now in flight
  together with the captured values.
\<close>

definition handleLike :: "string option \<Rightarrow> string \<Rightarrow> card \<Rightarrow> card \<times> (mutation \<times> captured) option" where
  "handleLike user postId c =
     (case user of
        None \<Rightarrow> (c, None)
      | Some uid \<Rightarrow>
          if isLiking c then (c, None)
          else
            (let c1 = c\<lparr>isLiking := True\<rparr>;
                 cap = \<lparr>previousLiked = isLiked c, previousCount = likesCount c\<rparr>;
                 c2 = c1\<lparr>isLiked := \<not> isLiked c\<rparr>;
                 c3 = c2\<lparr>likesCount := (if isLiked c then likesCount c - 1 else likesCount c + 1)\<rparr>
             in (c3, Some (if previousLiked cap then UnlikePost postId uid else LikePost postId uid, cap))))"

text \<open>
  The rest of \<open>handleLike\<close>, run when the awaited mutation settles: the \<open>catch\<close> block
  when it rejected (\<open>succeeded = False\<close>), then the \<open>finally\<close> block.
\<close>

definition handleLike_settled :: "bool \<Rightarrow> captured \<Rightarrow> card \<Rightarrow> card" where
  "handleLike_settled succeeded cap c =
     (let c1 = (if succeeded then c
                else c\<lparr>isLiked := previousLiked cap, likesCount := previousCount cap\<rparr>)
      in c1\<lparr>isLiking := False\<rparr>)"

text \<open>
  One control over time. \<open>handleLike\<close> is created anew by every render and is a
  closure over the \<open>isLiked\<close>, \<open>likesCount\<close> and \<open>isLiking\<close> of that render, so the
  control has two copies of the component state: \<open>state\<close>, what the setters have written
  so far, and \<open>rendered\<close>, what the latest committed render (and so the handler on the
  button) holds. Besides them it records the mutations that have been issued and have
  not settled yet.

  The events are a click on the like button (with whoever is signed in), a re-render, which
  brings \<open>rendered\<close> up to \<open>state\<close>, and the settling of the in-flight mutation at a given
  position, successfully or not. A click runs the handler of the latest render: guard,
  capture and optimistic values are computed from \<open>rendered\<close>; when the guard passes, the
  three setters overwrite all of \<open>state\<close>. The \<open>catch\<close> and \<open>finally\<close> blocks set their
  values on \<open>state\<close>.
\<close>

record control =
  state :: card
  rendered :: card
  inflight :: "(mutation \<times> captured) list"

datatype event = Click "string option" | Render | Settle nat bool

definition mount :: "bool \<Rightarrow> int \<Rightarrow> control" where
  "mount liked n =
     \<lparr>state = \<lparr>isLiked = liked, likesCount = n, isLiking = False\<rparr>,
      rendered = \<lparr>isLiked = liked, likesCount = n, isLiking = False\<rparr>,
      inflight = []\<rparr>"

fun step :: "string \<Rightarrow> control \<Rightarrow> event \<Rightarrow> control" where
  "step postId k (Click user) =
     (case handleLike user postId (rendered k) of
        (c, None) \<Rightarrow> k
      | (c, Some m) \<Rightarrow> k\<lparr>state := c, inflight := inflight k @ [m]\<rparr>)"
| "step postId k Render = k\<lparr>rendered := state k\<rparr>"
| "step postId k (Settle i succeeded) =
     (if i < length (inflight k)
      then k\<lparr>state := handleLike_settled succeeded (snd (inflight k ! i)) (state k),
             inflight := take i (inflight k) @ drop (Suc i) (inflight k)\<rparr>
      else k)"

definition run :: "string \<Rightarrow> control \<Rightarrow> event list \<Rightarrow> control" where
  "run postId k evs = foldl (step postId) k evs"

text \<open>
  The re-entrancy invariant the guard is there for: at most one mutation is in flight, and
  the \<open>isLiking\<close> flag is set exactly while one is.
\<close>

definition guarded :: "control \<Rightarrow> bool" where
  "guarded k = (length (inflight k) \<le> 1 \<and> (isLiking (state k) \<longleftrightarrow> inflight k \<noteq> []))"

text \<open>An event sequence in which a re-render is committed before every click.\<close>

definition render_before_click :: "event list \<Rightarrow> event list" where
  "render_before_click evs =
     concat (map (\<lambda>ev. case ev of Click user \<Rightarrow> [Render, Click user] | Render \<Rightarrow> [Render]
                              | Settle i succeeded \<Rightarrow> [Settle i succeeded]) evs)"

section \<open>Rows and derived view fields\<close>

text \<open>
  A profile row, and a post row as the feed query returns it (with the owning profile
  expanded). Timestamps are modelled as integers.
\<close>

record profile =
  pr_id :: string
  pr_username :: string
  pr_full_name :: "string option"
  pr_bio :: "string option"
  pr_avatar_url :: "string option"

record post_row =
  p_id :: string
  p_user_id :: string
  p_image_url :: string
  p_caption :: "string option"
  p_created_at :: int
  p_profile :: "profile option"

text \<open>
  A post as the data-access layer hands it to the views: the row, spread, plus the three
  derived fields.
\<close>

record post = post_row +
  likes_count :: int
  comments_count :: int
  is_liked :: bool

text \<open>A row of a \<open>select('post_id')\<close> query on likes or comments.\<close>

record ref_row =
  post_id :: string

section \<open>postsApi.getPosts\<close>

text \<open>
  The requests \<open>getPosts\<close> can send: the page of posts (range bounds and the optional
  \<open>user_id\<close> filter), the likes and the comments of a set of post ids, and the viewer's
  own likes within that set.
\<close>

datatype query =
    SelectPosts int int "string option"
  | SelectLikes "string list"
  | SelectComments "string list"
  | SelectUserLikes "string list" string

text \<open>
  What the platform answers. The answers are arbitrary: nothing is assumed about how they
  relate to each other or to the request. \<open>auth_getUser\<close> is the id of the
  authenticated user, if there is one.
\<close>

record backend =
  auth_getUser :: "string option"
  posts_range :: "int \<Rightarrow> int \<Rightarrow> string option \<Rightarrow> post_row list response"
  likes_in :: "string list \<Rightarrow> ref_row list response"
  comments_in :: "string list \<Rightarrow> ref_row list response"
  user_likes_in :: "string list \<Rightarrow> string \<Rightarrow> ref_row list response"

text \<open>\<open>x || []\<close> on a possibly null array.\<close>

definition or_empty :: "'a list option \<Rightarrow> 'a list" where
  "or_empty d = (case d of None \<Rightarrow> [] | Some rows \<Rightarrow> rows)"

text \<open>\<open>map.get(k) || 0\<close> on a map from post id to number.\<close>

definition get_or_zero :: "(string \<rightharpoonup> int) \<Rightarrow> string \<Rightarrow> int" where
  "get_or_zero m k = (case m k of None \<Rightarrow> 0 | Some v \<Rightarrow> v)"

text \<open>The body of the two \<open>forEach\<close> loops: one more row for the row's post.\<close>

definition count_row :: "(string \<rightharpoonup> int) \<Rightarrow> ref_row \<Rightarrow> (string \<rightharpoonup> int)" where
  "count_row m r = m(post_id r \<mapsto> get_or_zero m (post_id r) + 1)"

text \<open>The callback of the final \<open>data.map\<close>.\<close>

definition with_counts :: "(string \<rightharpoonup> int) \<Rightarrow> (string \<rightharpoonup> int) \<Rightarrow> string list \<Rightarrow> post_row \<Rightarrow> post" where
  "with_counts likesCountMap commentsCountMap userLikes p =
     post_row.extend p
       (post.fields (get_or_zero likesCountMap (p_id p))
                    (get_or_zero commentsCountMap (p_id p))
                    (p_id p \<in> set userLikes))"

text \<open>\<open>if (userId) query = query.eq('user_id', userId)\<close>: the filter applied, if any.\<close>

definition eq_filter :: "string option \<Rightarrow> string option" where
  "eq_filter userId = (if truthy userId then userId else None)"

text \<open>
  \<open>getPosts\<close> returns its result (the thrown error on the left) together with the
  requests it sent, in order.
\<close>

definition getPosts :: "backend \<Rightarrow> int \<Rightarrow> int \<Rightarrow> string option \<Rightarrow> (perror + post list) \<times> query list" where
  "getPosts b limit offset userId =
     (let currentUserId = auth_getUser b;
          user_filter = eq_filter userId;
          r = posts_range b offset (offset + limit - 1) user_filter;
          q1 = [SelectPosts offset (offset + limit - 1) user_filter]
      in case error r of
           Some e \<Rightarrow> (Inl e, q1)
         | None \<Rightarrow>
             if data r = None \<or> data r = Some [] then (Inr [], q1)
             else
               (let rows = or_empty (data r);
                    postIds = map p_id rows;
                    likesData = data (likes_in b postIds);
                    q2 = [SelectLikes postIds];
                    commentsData = data (comments_in b postIds);
                    q3 = [SelectComments postIds];
                    (userLikes, q4) =
                      (case currentUserId of
                         None \<Rightarrow> ([], [])
                       | Some uid \<Rightarrow>
                           if uid = [] then ([], [])
                           else (map post_id (or_empty (data (user_likes_in b postIds uid))),
                                 [SelectUserLikes postIds uid]));
                    likesCountMap = foldl count_row Map.empty (or_empty likesData);
                    commentsCountMap = foldl count_row Map.empty (or_empty commentsData)
                in (Inr (map (with_counts likesCountMap commentsCountMap userLikes) rows),
                    q1 @ q2 @ q3 @ q4)))"

text \<open>The four kinds of request.\<close>

fun is_posts_query :: "query \<Rightarrow> bool" where
  "is_posts_query (SelectPosts f t u) = True"
| "is_posts_query q = False"

fun is_likes_query :: "query \<Rightarrow> bool" where
  "is_likes_query (SelectLikes ids) = True"
| "is_likes_query q = False"

fun is_comments_query :: "query \<Rightarrow> bool" where
  "is_comments_query (SelectComments ids) = True"
| "is_comments_query q = False"

fun is_user_likes_query :: "query \<Rightarrow> bool" where
  "is_user_likes_query (SelectUserLikes ids u) = True"
| "is_user_likes_query q = False"

text \<open>The number of rows that refer to a given post.\<close>

definition matching :: "ref_row list \<Rightarrow> string \<Rightarrow> int" where
  "matching rows k = int (length (filter (\<lambda>r. post_id r = k) rows))"

text \<open>
  The outcome of the \<open>if (currentUserId)\<close> block of \<open>getPosts\<close>, named for the
  proofs: the ids in \<open>userLikes\<close> and the request sent.
\<close>

definition viewer_likes :: "backend \<Rightarrow> string list \<Rightarrow> string list" where
  "viewer_likes b postIds =
     (case auth_getUser b of
        None \<Rightarrow> []
      | Some uid \<Rightarrow> if uid = [] then []
                    else map post_id (or_empty (data (user_likes_in b postIds uid))))"

definition viewer_query :: "backend \<Rightarrow> string list \<Rightarrow> query list" where
  "viewer_query b postIds =
     (case auth_getUser b of
        None \<Rightarrow> []
      | Some uid \<Rightarrow> if uid = [] then [] else [SelectUserLikes postIds uid])"

text \<open>A small platform for concrete runs: a page of two posts, newest first.\<close>

definition demo_rows :: "post_row list" where
  "demo_rows =
     [\<lparr>p_id = ''p2'', p_user_id = ''u2'', p_image_url = ''b.png'', p_caption = None,
        p_created_at = 20, p_profile = None\<rparr>,
      \<lparr>p_id = ''p1'', p_user_id = ''u1'', p_image_url = ''a.png'', p_caption = Some ''hi'',
        p_created_at = 10, p_profile = None\<rparr>]"

definition demo_backend :: "string option \<Rightarrow> post_row list \<Rightarrow> backend" where
  "demo_backend viewer page =
     \<lparr>auth_getUser = viewer,
      posts_range = (\<lambda>from to u. ok page),
      likes_in = (\<lambda>ids. ok [\<lparr>post_id = ''p1''\<rparr>, \<lparr>post_id = ''p2''\<rparr>, \<lparr>post_id = ''p1''\<rparr>]),
      comments_in = (\<lambda>ids. ok [\<lparr>post_id = ''p2''\<rparr>]),
      user_likes_in = (\<lambda>ids uid. ok [\<lparr>post_id = ''p1''\<rparr>])\<rparr>"


section \<open>The platform's tables\<close>

text \<open>
  The tables of \<open>schema.sql\<close> that the operations below touch, with the columns they
  use. Ids and timestamps of like and follow rows are generated by the platform and never
  read by these operations, so they are left out. \<open>profiles_table\<close> holds the profile ids.
\<close>

record like_row =
  l_post_id :: string
  l_user_id :: string

record follow_row =
  follower_id :: string
  following_id :: string

record comment_row =
  c_id :: string
  c_post_id :: string
  c_user_id :: string
  c_content :: string
  c_created_at :: int

text \<open>The mutations the data-access layer sends to the platform.\<close>

datatype request =
    InsertFollow follow_row
  | DeleteFollows string string
  | DeleteLikes string string

text \<open>
  The platform: its tables, the user id of the caller's session (\<open>auth.uid()\<close>), a
  failure that is not about the data (network, service down) if one is happening, and
  the mutations received so far.
\<close>

record platform =
  profiles_table :: "string list"
  likes_table :: "like_row list"
  follows_table :: "follow_row list"
  comments_table :: "comment_row list"
  session_uid :: "string option"
  outage :: "perror option"
  received :: "request list"

text \<open>The error codes PostgreSQL and PostgREST use.\<close>

definition no_row :: perror where
  "no_row = \<lparr>code = ''PGRST116''\<rparr>"

definition policy_violation :: perror where
  "policy_violation = \<lparr>code = ''42501''\<rparr>"

definition check_violation :: perror where
  "check_violation = \<lparr>code = ''23514''\<rparr>"

definition unique_violation :: perror where
  "unique_violation = \<lparr>code = ''23505''\<rparr>"

definition foreign_key_violation :: perror where
  "foreign_key_violation = \<lparr>code = ''23503''\<rparr>"

text \<open>A mutation without \<open>.select()\<close> that went through: no data, no error.\<close>

definition done_resp :: "unit response" where
  "done_resp = \<lparr>data = None, error = None\<rparr>"

text \<open>
  \<open>from('follows').insert(row)\<close>. The insert policy is
  \<open>WITH CHECK (auth.uid() = follower_id)\<close>; the table has
  \<open>CHECK (follower_id != following_id)\<close>, \<open>UNIQUE(follower_id, following_id)\<close> and both
  columns reference \<open>profiles(id)\<close>.
\<close>

definition insert_follows :: "platform \<Rightarrow> follow_row \<Rightarrow> unit response \<times> platform" where
  "insert_follows pf row =
     (let pf1 = pf\<lparr>received := received pf @ [InsertFollow row]\<rparr>
      in case outage pf of
           Some e \<Rightarrow> (failed e, pf1)
         | None \<Rightarrow>
             if session_uid pf \<noteq> Some (follower_id row) then (failed policy_violation, pf1)
             else if follower_id row = following_id row then (failed check_violation, pf1)
             else if row \<in> set (follows_table pf) then (failed unique_violation, pf1)
             else if follower_id row \<notin> set (profiles_table pf) \<or> following_id row \<notin> set (profiles_table pf)
               then (failed foreign_key_violation, pf1)
             else (done_resp, pf1\<lparr>follows_table := follows_table pf @ [row]\<rparr>))"

text \<open>
  \<open>from('follows').delete().eq('follower_id', a).eq('following_id', b)\<close>, under the
  delete policy \<open>USING (auth.uid() = follower_id)\<close>: the rows that match the filter and the
  policy go; matching none is not an error.
\<close>

definition delete_follows :: "platform \<Rightarrow> string \<Rightarrow> string \<Rightarrow> unit response \<times> platform" where
  "delete_follows pf a b =
     (let pf1 = pf\<lparr>received := received pf @ [DeleteFollows a b]\<rparr>
      in case outage pf of
           Some e \<Rightarrow> (failed e, pf1)
         | None \<Rightarrow>
             (done_resp,
              pf1\<lparr>follows_table :=
                    filter (\<lambda>r. \<not> (follower_id r = a \<and> following_id r = b
                                    \<and> session_uid pf = Some (follower_id r)))
                           (follows_table pf)\<rparr>))"

text \<open>
  \<open>from('likes').delete().eq('post_id', p).eq('user_id', u)\<close>, under the delete policy
  \<open>USING (auth.uid() = user_id)\<close>.
\<close>

definition delete_likes :: "platform \<Rightarrow> string \<Rightarrow> string \<Rightarrow> unit response \<times> platform" where
  "delete_likes pf p u =
     (let pf1 = pf\<lparr>received := received pf @ [DeleteLikes p u]\<rparr>
      in case outage pf of
           Some e \<Rightarrow> (failed e, pf1)
         | None \<Rightarrow>
             (done_resp,
              pf1\<lparr>likes_table :=
                    filter (\<lambda>r. \<not> (l_post_id r = p \<and> l_user_id r = u
                                    \<and> session_uid pf = Some (l_user_id r)))
                           (likes_table pf)\<rparr>))"

text \<open>
  \<open>from('comments').select(...).eq('post_id', p).order('created_at', {ascending: true})\<close>;
  comments are readable by everyone.
\<close>

definition select_comments :: "platform \<Rightarrow> string \<Rightarrow> comment_row list response" where
  "select_comments pf p =
     (case outage pf of
        Some e \<Rightarrow> failed e
      | None \<Rightarrow> ok (sort_key c_created_at (filter (\<lambda>c. c_post_id c = p) (comments_table pf))))"

text \<open>\<open>.single()\<close>: exactly one row, or the error \<open>PGRST116\<close>.\<close>

definition single :: "'a list \<Rightarrow> 'a response" where
  "single rows = (case rows of [x] \<Rightarrow> ok x | _ \<Rightarrow> failed no_row)"

definition select_like_single :: "platform \<Rightarrow> string \<Rightarrow> string \<Rightarrow> like_row response" where
  "select_like_single pf p u =
     (case outage pf of
        Some e \<Rightarrow> failed e
      | None \<Rightarrow> single (filter (\<lambda>r. l_post_id r = p \<and> l_user_id r = u) (likes_table pf)))"

definition select_follow_single :: "platform \<Rightarrow> string \<Rightarrow> string \<Rightarrow> follow_row response" where
  "select_follow_single pf a b =
     (case outage pf of
        Some e \<Rightarrow> failed e
      | None \<Rightarrow> single (filter (\<lambda>r. follower_id r = a \<and> following_id r = b) (follows_table pf)))"

text \<open>The three tables a like or follow mutation can change.\<close>

definition tables :: "platform \<Rightarrow> like_row list \<times> follow_row list \<times> comment_row list" where
  "tables pf = (likes_table pf, follows_table pf, comments_table pf)"

section \<open>The data-access layer's handling of responses\<close>

text \<open>\<open>if (error) throw error; return data\<close>\<close>

definition throw_or_data :: "'a response \<Rightarrow> perror + 'a option" where
  "throw_or_data r = (case error r of Some e \<Rightarrow> Inl e | None \<Rightarrow> Inr (data r))"

text \<open>\<open>if (error) throw error\<close>\<close>

definition throw_or_void :: "'a response \<Rightarrow> perror + unit" where
  "throw_or_void r = (case error r of Some e \<Rightarrow> Inl e | None \<Rightarrow> Inr ())"

text \<open>\<open>if (error && error.code !== 'PGRST116') throw error; return !!data\<close>\<close>

definition throw_or_exists :: "'a response \<Rightarrow> perror + bool" where
  "throw_or_exists r =
     (case error r of
        Some e \<Rightarrow> if code e \<noteq> ''PGRST116'' then Inl e else Inr (data r \<noteq> None)
      | None \<Rightarrow> Inr (data r \<noteq> None))"

definition likesApi_unlikePost :: "platform \<Rightarrow> string \<Rightarrow> string \<Rightarrow> (perror + unit) \<times> platform" where
  "likesApi_unlikePost pf postId userId =
     (case delete_likes pf postId userId of (r, pf') \<Rightarrow> (throw_or_void r, pf'))"

definition likesApi_isLiked :: "platform \<Rightarrow> string \<Rightarrow> string \<Rightarrow> perror + bool" where
  "likesApi_isLiked pf postId userId = throw_or_exists (select_like_single pf postId userId)"

definition commentsApi_getComments :: "platform \<Rightarrow> string \<Rightarrow> perror + comment_row list option" where
  "commentsApi_getComments pf postId = throw_or_data (select_comments pf postId)"

definition followsApi_followUser :: "platform \<Rightarrow> string \<Rightarrow> string \<Rightarrow> (perror + unit) \<times> platform" where
  "followsApi_followUser pf followerId followingId =
     (case insert_follows pf \<lparr>follower_id = followerId, following_id = followingId\<rparr> of
        (r, pf') \<Rightarrow> (throw_or_void r, pf'))"

definition followsApi_unfollowUser :: "platform \<Rightarrow> string \<Rightarrow> string \<Rightarrow> (perror + unit) \<times> platform" where
  "followsApi_unfollowUser pf followerId followingId =
     (case delete_follows pf followerId followingId of (r, pf') \<Rightarrow> (throw_or_void r, pf'))"

definition followsApi_isFollowing :: "platform \<Rightarrow> string \<Rightarrow> string \<Rightarrow> perror + bool" where
  "followsApi_isFollowing pf followerId followingId =
     throw_or_exists (select_follow_single pf followerId followingId)"
















section \<open>The session store\<close>



section \<open>Profile: the follow button\<close>

text \<open>The two pieces of component state \<open>handleFollow\<close> reads and writes.\<close>

record follow_state =
  isFollowing :: bool
  followersCount :: int

datatype follow_call = FollowUser string string | UnfollowUser string string

text \<open>
  \<open>currentProfile?.username === username || profile?.id === user?.id\<close>, with
  \<open>None\<close> for null and undefined: \<open>currentProfile\<close> is the signed-in user's profile,
  \<open>username\<close> the route parameter, \<open>profile\<close> the profile on display and \<open>user\<close> the id
  of the signed-in user.
\<close>

definition isOwnProfile :: "profile option \<Rightarrow> string option \<Rightarrow> profile option \<Rightarrow> string option \<Rightarrow> bool" where
  "isOwnProfile currentProfile username profile user =
     (map_option pr_username currentProfile = username \<or> map_option pr_id profile = user)"

text \<open>
  \<open>handleFollow\<close> up to its \<open>await\<close>: the new state and, unless the guard returned, the
  call it makes with the captured \<open>previousFollowing\<close> and \<open>previousCount\<close>.
\<close>

definition handleFollow ::
  "profile option \<Rightarrow> string option \<Rightarrow> profile option \<Rightarrow> string option \<Rightarrow> follow_state
     \<Rightarrow> follow_state \<times> (follow_call \<times> bool \<times> int) option" where
  "handleFollow currentProfile username profile user s =
     (case user of
        None \<Rightarrow> (s, None)
      | Some uid \<Rightarrow>
          (case profile of
             None \<Rightarrow> (s, None)
           | Some p \<Rightarrow>
               if isOwnProfile currentProfile username profile user then (s, None)
               else
                 (let previousFollowing = isFollowing s;
                      previousCount = followersCount s;
                      s1 = s\<lparr>isFollowing := \<not> isFollowing s\<rparr>;
                      s2 = s1\<lparr>followersCount :=
                                (if isFollowing s then followersCount s - 1 else followersCount s + 1)\<rparr>
                  in (s2, Some (if previousFollowing then UnfollowUser uid (pr_id p)
                                else FollowUser uid (pr_id p),
                                previousFollowing, previousCount)))))"

section \<open>CommentsDialog: loading and rendering the thread\<close>

record dialog =
  comments :: "comment_row list option"
  loading :: bool

text \<open>
  \<open>loadComments\<close>: \<open>setLoading(true)\<close>, then \<open>setComments(data)\<close> if the call returned
  and nothing (but a log line) if it threw, then \<open>setLoading(false)\<close>.
\<close>

definition loadComments :: "platform \<Rightarrow> string \<Rightarrow> dialog \<Rightarrow> dialog" where
  "loadComments pf postId d =
     (let d1 = d\<lparr>loading := True\<rparr>;
          d2 = (case commentsApi_getComments pf postId of
                  Inr rows \<Rightarrow> d1\<lparr>comments := rows\<rparr>
                | Inl e \<Rightarrow> d1)
      in d2\<lparr>loading := False\<rparr>)"

text \<open>
  What the list area shows: the skeleton while loading, the notice when there is no
  comment, otherwise one entry per element of \<open>comments\<close>, in list order, with its key,
  its content and whether the delete button is shown (\<open>user?.id === comment.user_id\<close>).
  Reading \<open>length\<close> of null is a TypeError.
\<close>

datatype view = Skeleton | EmptyNotice | CommentList "(string \<times> string \<times> bool) list" | TypeError

definition entry :: "string option \<Rightarrow> comment_row \<Rightarrow> string \<times> string \<times> bool" where
  "entry user c = (c_id c, c_content c, user = Some (c_user_id c))"

definition render :: "string option \<Rightarrow> dialog \<Rightarrow> view" where
  "render user d =
     (if loading d then Skeleton
      else case comments d of
             None \<Rightarrow> TypeError
           | Some cs \<Rightarrow> if length cs = 0 then EmptyNotice else CommentList (map (entry user) cs))"

text \<open>Concrete platforms for the examples.\<close>

definition demo_platform :: platform where
  "demo_platform =
     \<lparr>profiles_table = [''u1'', ''u2''],
      likes_table = [\<lparr>l_post_id = ''p1'', l_user_id = ''u1''\<rparr>, \<lparr>l_post_id = ''p1'', l_user_id = ''u2''\<rparr>],
      follows_table = [\<lparr>follower_id = ''u1'', following_id = ''u2''\<rparr>],
      comments_table =
        [\<lparr>c_id = ''C'', c_post_id = ''p1'', c_user_id = ''u2'', c_content = ''third'', c_created_at = 3\<rparr>,
         \<lparr>c_id = ''A'', c_post_id = ''p1'', c_user_id = ''u1'', c_content = ''first'', c_created_at = 1\<rparr>,
         \<lparr>c_id = ''X'', c_post_id = ''p2'', c_user_id = ''u1'', c_content = ''elsewhere'', c_created_at = 0\<rparr>,
         \<lparr>c_id = ''B'', c_post_id = ''p1'', c_user_id = ''u2'', c_content = ''second'', c_created_at = 2\<rparr>],
      session_uid = Some ''u1'',
      outage = None,
      received = []\<rparr>"

section \<open>Properties of the like toggle\<close>

lemma handleLike_guard: "isLiking c \<Longrightarrow> handleLike user postId c = (c, None)"
  by (simp add: handleLike_def split: option.splits)

text \<open>
  C1. A toggle that passes the guard (a user is signed in, no toggle is pending) flips the
  liked flag and moves the counter by exactly one, up from not-liked and down from liked,
  before the mutation settles, and issues the matching mutation. If the mutation then
  fails, flag and counter are back at their values from before the toggle; if it
  succeeds they keep the optimistic values.
\<close>

theorem handleLike_optimistic_then_revert:
  assumes "\<not> isLiking c"
  shows "\<exists>c' m cap.
           handleLike (Some uid) postId c = (c', Some (m, cap))
         \<and> isLiked c' = (\<not> isLiked c)
         \<and> likesCount c' = (if isLiked c then likesCount c - 1 else likesCount c + 1)
         \<and> m = (if isLiked c then UnlikePost postId uid else LikePost postId uid)
         \<and> isLiked (handleLike_settled False cap c') = isLiked c
         \<and> likesCount (handleLike_settled False cap c') = likesCount c
         \<and> isLiked (handleLike_settled True cap c') = isLiked c'
         \<and> likesCount (handleLike_settled True cap c') = likesCount c'"
  using assms by (simp add: handleLike_def handleLike_settled_def Let_def)

theorem handleLike_optimistic_then_revert_witness:
  "handleLike (Some ''u1'') ''p1'' \<lparr>isLiked = False, likesCount = 7, isLiking = False\<rparr>
     = (\<lparr>isLiked = True, likesCount = 8, isLiking = True\<rparr>,
        Some (LikePost ''p1'' ''u1'', \<lparr>previousLiked = False, previousCount = 7\<rparr>))
   \<and> handleLike_settled False \<lparr>previousLiked = False, previousCount = 7\<rparr>
        \<lparr>isLiked = True, likesCount = 8, isLiking = True\<rparr>
     = \<lparr>isLiked = False, likesCount = 7, isLiking = False\<rparr>"
  using handleLike_optimistic_then_revert
    [of "\<lparr>isLiked = False, likesCount = 7, isLiking = False\<rparr>" "''u1''" "''p1''"]
  by (simp add: handleLike_def handleLike_settled_def Let_def)

lemma guarded_mount: "guarded (mount liked n)"
  by (simp add: guarded_def mount_def)

lemma guarded_render: "guarded k \<Longrightarrow> guarded (step postId k Render)"
  by (simp add: guarded_def)

lemma guarded_settle: "guarded k \<Longrightarrow> guarded (step postId k (Settle i succeeded))"
proof (cases "i < length (inflight k)")
  case True
  assume "guarded k"
  with True have "i = 0" "length (inflight k) = 1" by (auto simp: guarded_def)
  then show ?thesis
    by (simp add: guarded_def handleLike_settled_def Let_def)
next
  case False
  assume "guarded k"
  with False show ?thesis by simp
qed

lemma guarded_fresh_click:
  assumes "guarded k"
  shows "guarded (step postId (step postId k Render) (Click user))"
proof (cases "isLiking (state k) \<or> user = None")
  case True
  then have "handleLike user postId (state k) = (state k, None)"
    by (auto simp: handleLike_def split: option.splits)
  with assms show ?thesis by (simp add: guarded_def)
next
  case False
  then obtain uid where u: "user = Some uid" and nl: "\<not> isLiking (state k)" by auto
  from assms nl have "inflight k = []" by (simp add: guarded_def)
  with u nl show ?thesis
    by (simp add: guarded_def handleLike_def Let_def)
qed

lemma run_append: "run postId k (xs @ ys) = run postId (run postId k xs) ys"
  by (simp add: run_def)

lemma guarded_render_before_click:
  "guarded k \<Longrightarrow> guarded (run postId k (render_before_click evs))"
proof (induction evs arbitrary: k)
  case Nil
  then show ?case by (simp add: run_def render_before_click_def)
next
  case (Cons ev evs)
  have split: "render_before_click (ev # evs) = render_before_click [ev] @ render_before_click evs"
    by (simp add: render_before_click_def)
  have "guarded (run postId k (render_before_click [ev]))"
  proof (cases ev)
    case (Click user)
    with Cons.prems show ?thesis
      by (simp add: render_before_click_def run_def guarded_fresh_click del: step.simps)
  next
    case Render
    with Cons.prems show ?thesis
      by (simp add: render_before_click_def run_def guarded_render del: step.simps)
  next
    case (Settle i succeeded)
    with Cons.prems show ?thesis
      by (simp add: render_before_click_def run_def guarded_settle del: step.simps)
  qed
  then show ?case
    unfolding split run_append by (rule Cons.IH)
qed

lemma one_in_flight_when_rendered:
  "length (inflight (run postId (mount liked n) (render_before_click evs))) \<le> 1"
  using guarded_render_before_click[OF guarded_mount] by (simp add: guarded_def)

text \<open>
  C4. The guard does not hold what the claim says. A second click handled before the
  component has re-rendered runs the handler of the old render, whose \<open>isLiking\<close> is still
  false: it passes the guard and issues a second mutation while the first is in flight.
  With a re-render between the two clicks the second click is the no-op the claim calls
  for.
\<close>

theorem stale_click_passes_guard:
  "inflight (run ''p1'' (mount False 3) [Click (Some ''u1''), Click (Some ''u1'')])
     = [(LikePost ''p1'' ''u1'', \<lparr>previousLiked = False, previousCount = 3\<rparr>),
        (LikePost ''p1'' ''u1'', \<lparr>previousLiked = False, previousCount = 3\<rparr>)]
   \<and> state (run ''p1'' (mount False 3) [Click (Some ''u1'')])
     = \<lparr>isLiked = True, likesCount = 4, isLiking = True\<rparr>
   \<and> inflight (run ''p1'' (mount False 3) [Click (Some ''u1''), Render, Click (Some ''u1'')])
     = [(LikePost ''p1'' ''u1'', \<lparr>previousLiked = False, previousCount = 3\<rparr>)]"
  by (simp add: run_def mount_def handleLike_def Let_def)

section \<open>Properties of getPosts\<close>

lemma get_or_zero_count_row:
  "get_or_zero (count_row m r) k = get_or_zero m k + (if post_id r = k then 1 else 0)"
  by (simp add: get_or_zero_def count_row_def)

lemma get_or_zero_foldl:
  "get_or_zero (foldl count_row m rows) k = get_or_zero m k + matching rows k"
  by (induction rows arbitrary: m) (simp_all add: matching_def get_or_zero_count_row)

lemma get_or_zero_fold_empty:
  "get_or_zero (foldl count_row Map.empty rows) k = matching rows k"
  by (simp add: get_or_zero_foldl) (simp add: get_or_zero_def)

lemma truncate_with_counts: "post_row.truncate (with_counts lm cm ul p) = p"
  by (simp add: with_counts_def post_row.defs)

lemma likes_with_counts: "likes_count (with_counts lm cm ul p) = get_or_zero lm (p_id p)"
  by (simp add: with_counts_def post_row.defs post.defs)

lemma comments_with_counts: "comments_count (with_counts lm cm ul p) = get_or_zero cm (p_id p)"
  by (simp add: with_counts_def post_row.defs post.defs)

lemma is_liked_with_counts: "is_liked (with_counts lm cm ul p) = (p_id p \<in> set ul)"
  by (simp add: with_counts_def post_row.defs post.defs)

lemma p_id_with_counts: "p_id (with_counts lm cm ul p) = p_id p"
  by (simp add: with_counts_def post_row.defs post.defs)

lemma getPosts_nonempty:
  assumes "error (posts_range b offset (offset + limit - 1) (eq_filter userId)) = None"
      and "data (posts_range b offset (offset + limit - 1) (eq_filter userId)) = Some rows"
      and "rows \<noteq> []"
  shows "getPosts b limit offset userId =
           (Inr (map (with_counts (foldl count_row Map.empty (or_empty (data (likes_in b (map p_id rows)))))
                                  (foldl count_row Map.empty (or_empty (data (comments_in b (map p_id rows)))))
                                  (viewer_likes b (map p_id rows))) rows),
            [SelectPosts offset (offset + limit - 1) (eq_filter userId),
             SelectLikes (map p_id rows), SelectComments (map p_id rows)] @ viewer_query b (map p_id rows))"
  using assms
  by (simp add: getPosts_def Let_def or_empty_def viewer_likes_def viewer_query_def split: option.splits)

lemma getPosts_short:
  assumes "error (posts_range b offset (offset + limit - 1) (eq_filter userId)) \<noteq> None
         \<or> or_empty (data (posts_range b offset (offset + limit - 1) (eq_filter userId))) = []"
  shows "snd (getPosts b limit offset userId) =
            [SelectPosts offset (offset + limit - 1) (eq_filter userId)]"
proof (cases "error (posts_range b offset (offset + limit - 1) (eq_filter userId))")
  case (Some e)
  then show ?thesis by (simp add: getPosts_def Let_def)
next
  case None
  with assms have "data (posts_range b offset (offset + limit - 1) (eq_filter userId)) = None
      \<or> data (posts_range b offset (offset + limit - 1) (eq_filter userId)) = Some []"
    by (auto simp: or_empty_def split: option.splits)
  with None show ?thesis by (auto simp add: getPosts_def Let_def)
qed


lemma getPosts_cases:
  obtains (short) "error (posts_range b offset (offset + limit - 1) (eq_filter userId)) \<noteq> None
         \<or> or_empty (data (posts_range b offset (offset + limit - 1) (eq_filter userId))) = []"
  | (page) rows where "error (posts_range b offset (offset + limit - 1) (eq_filter userId)) = None"
      "data (posts_range b offset (offset + limit - 1) (eq_filter userId)) = Some rows" "rows \<noteq> []"
  by (cases "data (posts_range b offset (offset + limit - 1) (eq_filter userId))")
     (auto simp: or_empty_def)

lemma viewer_query_length: "length (viewer_query b ids) = (if truthy (auth_getUser b) then 1 else 0)"
  by (simp add: viewer_query_def truthy_def split: option.splits)

lemma viewer_query_unauth: "\<not> truthy (auth_getUser b) \<Longrightarrow> viewer_query b ids = []"
  by (simp add: viewer_query_def truthy_def split: option.splits)

lemma viewer_query_kind:
  "filter is_posts_query (viewer_query b ids) = []"
  "filter is_likes_query (viewer_query b ids) = []"
  "filter is_comments_query (viewer_query b ids) = []"
  "filter is_user_likes_query (viewer_query b ids) = viewer_query b ids"
  by (simp_all add: viewer_query_def split: option.splits)

lemma viewer_query_member:
  "q \<in> set (viewer_query b ids) \<Longrightarrow> \<exists>uid. auth_getUser b = Some uid \<and> q = SelectUserLikes ids uid"
  by (auto simp: viewer_query_def split: option.splits if_splits)

text \<open>
  C2. Whatever the page size and offset, one call of \<open>getPosts\<close> sends at most one
  posts query, at most one likes query, at most one comments query and at most one
  viewer-likes query, the last only when a viewer is authenticated; the likes, comments
  and viewer-likes queries are over the ids of the fetched page. The number of requests
  is 1 when the posts query fails or the page is empty, and otherwise 4 with a viewer and
  3 without: it never exceeds 4 and does not grow with the page.
\<close>

theorem getPosts_query_budget:
  fixes b limit offset userId
  defines "r \<equiv> posts_range b offset (offset + limit - 1) (eq_filter userId)"
  defines "ids \<equiv> map p_id (or_empty (data r))"
  defines "log \<equiv> snd (getPosts b limit offset userId)"
  shows "length (filter is_posts_query log) \<le> 1
       \<and> length (filter is_likes_query log) \<le> 1
       \<and> length (filter is_comments_query log) \<le> 1
       \<and> length (filter is_user_likes_query log) \<le> 1
       \<and> (\<not> truthy (auth_getUser b) \<longrightarrow> filter is_user_likes_query log = [])
       \<and> (\<forall>q \<in> set log. q = SelectPosts offset (offset + limit - 1) (eq_filter userId)
                         \<or> q = SelectLikes ids \<or> q = SelectComments ids
                         \<or> (\<exists>uid. auth_getUser b = Some uid \<and> q = SelectUserLikes ids uid))
       \<and> length log = (if error r \<noteq> None \<or> or_empty (data r) = [] then 1
                        else if truthy (auth_getUser b) then 4 else 3)
       \<and> length log \<le> 4"
proof (cases rule: getPosts_cases[of b offset limit userId])
  case short
  then have "log = [SelectPosts offset (offset + limit - 1) (eq_filter userId)]"
    unfolding log_def by (rule getPosts_short)
  with short show ?thesis by (simp add: r_def)
next
  case (page rows)
  then have l: "log = [SelectPosts offset (offset + limit - 1) (eq_filter userId),
                   SelectLikes ids, SelectComments ids] @ viewer_query b ids"
    unfolding log_def ids_def r_def by (simp add: getPosts_nonempty or_empty_def)
  have n: "\<not> (error r \<noteq> None \<or> or_empty (data r) = [])"
    using page by (simp add: r_def or_empty_def)
  show ?thesis
    unfolding l using n
    by (auto simp: viewer_query_kind viewer_query_length viewer_query_unauth dest: viewer_query_member)
qed



lemma viewer_likes_member:
  "k \<in> set (viewer_likes b ids) \<longleftrightarrow>
     (\<exists>uid. auth_getUser b = Some uid \<and> uid \<noteq> []
          \<and> k \<in> post_id ` set (or_empty (data (user_likes_in b ids uid))))"
proof (cases "auth_getUser b")
  case None
  then show ?thesis by (simp add: viewer_likes_def)
next
  case (Some uid)
  then show ?thesis by (cases "uid = []") (simp_all add: viewer_likes_def)
qed

lemma viewer_likes_unauth: "auth_getUser b = None \<Longrightarrow> viewer_likes b ids = []"
  by (simp add: viewer_likes_def)



theorem getPosts_query_budget_witness:
  "snd (getPosts (demo_backend (Some ''u1'') demo_rows) 10 0 None) =
     [SelectPosts 0 9 None, SelectLikes [''p2'', ''p1''], SelectComments [''p2'', ''p1''],
      SelectUserLikes [''p2'', ''p1''] ''u1'']
   \<and> filter is_user_likes_query (snd (getPosts (demo_backend None demo_rows) 10 0 None)) = []"
  using getPosts_query_budget [of "demo_backend (Some ''u1'') demo_rows" 10 0 None]
        getPosts_query_budget [of "demo_backend None demo_rows" 10 0 None]
  by (simp add: getPosts_def demo_backend_def demo_rows_def ok_def or_empty_def eq_filter_def
      truthy_def Let_def with_counts_def count_row_def get_or_zero_def post_row.defs post.defs)

text \<open>
  C3. When the posts query returns a non-empty page, \<open>getPosts\<close> returns the same posts
  in the same order, each with \<open>likes_count\<close> equal to the number of fetched like rows
  for its id, \<open>comments_count\<close> equal to the number of fetched comment rows for its id,
  and \<open>is_liked\<close> true exactly when a viewer is authenticated and the viewer-likes
  query returned a row for its id.
\<close>

theorem getPosts_attaches_counts:
  assumes "error (posts_range b offset (offset + limit - 1) (eq_filter userId)) = None"
      and "data (posts_range b offset (offset + limit - 1) (eq_filter userId)) = Some rows"
      and "rows \<noteq> []"
  shows "\<exists>res. fst (getPosts b limit offset userId) = Inr res
           \<and> map post_row.truncate res = rows
           \<and> (\<forall>p \<in> set res.
                 likes_count p =
                   int (length (filter (\<lambda>l. post_id l = p_id p)
                                  (or_empty (data (likes_in b (map p_id rows))))))
               \<and> comments_count p =
                   int (length (filter (\<lambda>c. post_id c = p_id p)
                                  (or_empty (data (comments_in b (map p_id rows))))))
               \<and> (is_liked p \<longleftrightarrow>
                    (\<exists>uid. auth_getUser b = Some uid \<and> uid \<noteq> []
                       \<and> p_id p \<in> post_id ` set (or_empty (data (user_likes_in b (map p_id rows) uid))))))"
proof -
  let ?lm = "foldl count_row Map.empty (or_empty (data (likes_in b (map p_id rows))))"
  let ?cm = "foldl count_row Map.empty (or_empty (data (comments_in b (map p_id rows))))"
  let ?res = "map (with_counts ?lm ?cm (viewer_likes b (map p_id rows))) rows"
  have res: "fst (getPosts b limit offset userId) = Inr ?res"
    using assms by (simp add: getPosts_nonempty)
  have order: "map post_row.truncate ?res = rows"
    by (simp add: truncate_with_counts comp_def)
  have each: "likes_count p = matching (or_empty (data (likes_in b (map p_id rows)))) (p_id p)
      \<and> comments_count p = matching (or_empty (data (comments_in b (map p_id rows)))) (p_id p)
      \<and> (is_liked p \<longleftrightarrow> p_id p \<in> set (viewer_likes b (map p_id rows)))"
    if "p \<in> set ?res" for p
  proof -
    from that obtain row where "p = with_counts ?lm ?cm (viewer_likes b (map p_id rows)) row"
      by auto
    then show ?thesis
      by (simp add: likes_with_counts comments_with_counts is_liked_with_counts
          p_id_with_counts get_or_zero_fold_empty)
  qed
  show ?thesis
    using res order each
    by (intro exI[of _ ?res]) (simp add: matching_def viewer_likes_member)
qed


theorem getPosts_attaches_counts_witness:
  "fst (getPosts (demo_backend (Some ''u1'') demo_rows) 10 0 None) =
     Inr [\<lparr>p_id = ''p2'', p_user_id = ''u2'', p_image_url = ''b.png'', p_caption = None,
            p_created_at = 20, p_profile = None,
            likes_count = 1, comments_count = 1, is_liked = False\<rparr>,
          \<lparr>p_id = ''p1'', p_user_id = ''u1'', p_image_url = ''a.png'', p_caption = Some ''hi'',
            p_created_at = 10, p_profile = None,
            likes_count = 2, comments_count = 0, is_liked = True\<rparr>]"
  using getPosts_attaches_counts [of "demo_backend (Some ''u1'') demo_rows" 0 10 None demo_rows]
  by (simp add: getPosts_def demo_backend_def demo_rows_def ok_def or_empty_def eq_filter_def
      truthy_def Let_def with_counts_def count_row_def get_or_zero_def post_row.defs post.defs)


lemma getPosts_short_result:
  assumes "error (posts_range b offset (offset + limit - 1) (eq_filter userId)) \<noteq> None
         \<or> or_empty (data (posts_range b offset (offset + limit - 1) (eq_filter userId))) = []"
      and "fst (getPosts b limit offset userId) = Inr res"
  shows "res = []"
proof (cases "error (posts_range b offset (offset + limit - 1) (eq_filter userId))")
  case (Some e)
  with assms(2) show ?thesis by (simp add: getPosts_def Let_def)
next
  case None
  with assms(1) have "data (posts_range b offset (offset + limit - 1) (eq_filter userId)) = None
      \<or> data (posts_range b offset (offset + limit - 1) (eq_filter userId)) = Some []"
    by (auto simp: or_empty_def split: option.splits)
  with None assms(2) show ?thesis by (auto simp add: getPosts_def Let_def)
qed

text \<open>
  C7. With no authenticated viewer, \<open>getPosts\<close> sends no viewer-likes query and every
  post it returns has \<open>is_liked = False\<close>.
\<close>

theorem getPosts_unauthenticated:
  assumes "auth_getUser b = None"
  shows "filter is_user_likes_query (snd (getPosts b limit offset userId)) = []
       \<and> (\<forall>res. fst (getPosts b limit offset userId) = Inr res \<longrightarrow> (\<forall>p \<in> set res. \<not> is_liked p))"
proof (cases rule: getPosts_cases[of b offset limit userId])
  case short
  have "snd (getPosts b limit offset userId) = [SelectPosts offset (offset + limit - 1) (eq_filter userId)]"
    using short by (rule getPosts_short)
  moreover have "res = []" if "fst (getPosts b limit offset userId) = Inr res" for res
    using short that by (rule getPosts_short_result)
  ultimately show ?thesis by auto
next
  case (page rows)
  have q: "viewer_query b (map p_id rows) = []"
    using assms by (simp add: viewer_query_def)
  have l: "viewer_likes b (map p_id rows) = []"
    using assms by (simp add: viewer_likes_def)
  note g = getPosts_nonempty[OF page, unfolded q l]
  have "filter is_user_likes_query (snd (getPosts b limit offset userId)) = []"
    by (simp add: g)
  moreover have "\<not> is_liked p" if "fst (getPosts b limit offset userId) = Inr res" "p \<in> set res" for res p
  proof -
    from that(1) have "res = map (with_counts (foldl count_row Map.empty (or_empty (data (likes_in b (map p_id rows)))))
                                  (foldl count_row Map.empty (or_empty (data (comments_in b (map p_id rows))))) []) rows"
      by (simp add: g)
    with that(2) obtain row lm cm where "p = with_counts lm cm [] row" by auto
    then show ?thesis by (simp add: is_liked_with_counts)
  qed
  ultimately show ?thesis by blast
qed


theorem getPosts_unauthenticated_witness:
  "snd (getPosts (demo_backend None demo_rows) 10 0 None) =
     [SelectPosts 0 9 None, SelectLikes [''p2'', ''p1''], SelectComments [''p2'', ''p1'']]
   \<and> map is_liked (projr (fst (getPosts (demo_backend None demo_rows) 10 0 None))) = [False, False]"
  using getPosts_unauthenticated [of "demo_backend None demo_rows" 10 0 None]
  by (simp add: getPosts_def demo_backend_def demo_rows_def ok_def or_empty_def eq_filter_def
      truthy_def Let_def with_counts_def count_row_def get_or_zero_def post_row.defs post.defs)


text \<open>
  C8. When the posts query succeeds with an empty page, \<open>getPosts\<close> returns the empty
  list and the posts query is the only request it sent.
\<close>

theorem getPosts_empty_page:
  assumes "error (posts_range b offset (offset + limit - 1) (eq_filter userId)) = None"
      and "data (posts_range b offset (offset + limit - 1) (eq_filter userId)) = Some []"
  shows "getPosts b limit offset userId =
           (Inr [], [SelectPosts offset (offset + limit - 1) (eq_filter userId)])"
  using assms by (simp add: getPosts_def Let_def)

theorem getPosts_empty_page_witness:
  "getPosts (demo_backend (Some ''u1'') []) 10 30 None = (Inr [], [SelectPosts 30 39 None])"
  using getPosts_empty_page [of "demo_backend (Some ''u1'') []" 30 10 None]
  by (simp add: demo_backend_def ok_def eq_filter_def truthy_def)

section \<open>Properties of the comment thread\<close>

lemma select_comments_up:
  "outage pf = None \<Longrightarrow>
     select_comments pf p = ok (sort_key c_created_at (filter (\<lambda>c. c_post_id c = p) (comments_table pf)))"
  by (simp add: select_comments_def)

lemma getComments_up:
  "outage pf = None \<Longrightarrow>
     commentsApi_getComments pf p =
       Inr (Some (sort_key c_created_at (filter (\<lambda>c. c_post_id c = p) (comments_table pf))))"
  by (simp add: commentsApi_getComments_def select_comments_up throw_or_data_def ok_def)

lemma loadComments_up:
  "outage pf = None \<Longrightarrow>
     loadComments pf p d =
       \<lparr>comments = Some (sort_key c_created_at (filter (\<lambda>c. c_post_id c = p) (comments_table pf))),
        loading = False\<rparr>"
  by (simp add: loadComments_def getComments_up Let_def)

lemma sort_key_empty: "sort_key f xs = [] \<longleftrightarrow> xs = []"
  by (metis length_0_conv length_sort)

text \<open>
  C9. When the platform answers, \<open>loadComments\<close> leaves in \<open>comments\<close> exactly the comments
  of the post (each as often as the table has it), in ascending order of creation time, and
  the list area then shows one entry per comment in that same order (or the notice when
  there is none). With comments A (t=1), B (t=2), C (t=3) stored in any order, the entries
  are A, B, C.
\<close>

theorem comments_oldest_first:
  assumes "outage pf = None"
  shows "\<exists>cs. comments (loadComments pf postId d) = Some cs
           \<and> mset cs = mset (filter (\<lambda>c. c_post_id c = postId) (comments_table pf))
           \<and> sorted (map c_created_at cs)
           \<and> render user (loadComments pf postId d) =
               (if cs = [] then EmptyNotice else CommentList (map (entry user) cs))"
proof -
  let ?cs = "sort_key c_created_at (filter (\<lambda>c. c_post_id c = postId) (comments_table pf))"
  have l: "loadComments pf postId d = \<lparr>comments = Some ?cs, loading = False\<rparr>"
    using assms by (rule loadComments_up)
  have "comments (loadComments pf postId d) = Some ?cs" by (simp add: l)
  moreover have "mset ?cs = mset (filter (\<lambda>c. c_post_id c = postId) (comments_table pf))"
    by simp
  moreover have "sorted (map c_created_at ?cs)" by (rule sorted_sort_key)
  moreover have "render user (loadComments pf postId d) =
               (if ?cs = [] then EmptyNotice else CommentList (map (entry user) ?cs))"
    by (simp add: l render_def sort_key_empty)
  ultimately show ?thesis by blast
qed

theorem comments_oldest_first_witness:
  "render (Some ''u1'') (loadComments demo_platform ''p1'' \<lparr>comments = Some [], loading = False\<rparr>)
     = CommentList [(''A'', ''first'', True), (''B'', ''second'', False), (''C'', ''third'', False)]"
  using comments_oldest_first [of demo_platform "''p1''" "\<lparr>comments = Some [], loading = False\<rparr>" "Some ''u1''"]
  by (simp add: demo_platform_def loadComments_def commentsApi_getComments_def select_comments_def
      throw_or_data_def ok_def render_def entry_def Let_def)

section \<open>Properties of the delete-by-filter operations\<close>

lemma unlikePost_up:
  "outage pf = None \<Longrightarrow>
     likesApi_unlikePost pf p u =
       (Inr (), pf\<lparr>received := received pf @ [DeleteLikes p u],
                   likes_table := filter (\<lambda>r. \<not> (l_post_id r = p \<and> l_user_id r = u
                                               \<and> session_uid pf = Some (l_user_id r)))
                                      (likes_table pf)\<rparr>)"
  by (simp add: likesApi_unlikePost_def delete_likes_def throw_or_void_def done_resp_def Let_def)

lemma unfollowUser_up:
  "outage pf = None \<Longrightarrow>
     followsApi_unfollowUser pf a b =
       (Inr (), pf\<lparr>received := received pf @ [DeleteFollows a b],
                   follows_table := filter (\<lambda>r. \<not> (follower_id r = a \<and> following_id r = b
                                               \<and> session_uid pf = Some (follower_id r)))
                                      (follows_table pf)\<rparr>)"
  by (simp add: followsApi_unfollowUser_def delete_follows_def throw_or_void_def done_resp_def Let_def)

text \<open>
  C10. While the platform answers, \<open>unlikePost\<close> and \<open>unfollowUser\<close> return normally
  whether or not a row matches; when none matches, the tables are left as they were; and a
  second call right after the first returns normally too and leaves the tables as the
  first call left them.
\<close>

theorem delete_by_filter_idempotent:
  assumes "outage pf = None"
  shows "fst (likesApi_unlikePost pf p u) = Inr ()
       \<and> ((\<forall>r \<in> set (likes_table pf). \<not> (l_post_id r = p \<and> l_user_id r = u))
            \<longrightarrow> tables (snd (likesApi_unlikePost pf p u)) = tables pf)
       \<and> fst (likesApi_unlikePost (snd (likesApi_unlikePost pf p u)) p u) = Inr ()
       \<and> tables (snd (likesApi_unlikePost (snd (likesApi_unlikePost pf p u)) p u))
           = tables (snd (likesApi_unlikePost pf p u))
       \<and> fst (followsApi_unfollowUser pf a b) = Inr ()
       \<and> ((\<forall>r \<in> set (follows_table pf). \<not> (follower_id r = a \<and> following_id r = b))
            \<longrightarrow> tables (snd (followsApi_unfollowUser pf a b)) = tables pf)
       \<and> fst (followsApi_unfollowUser (snd (followsApi_unfollowUser pf a b)) a b) = Inr ()
       \<and> tables (snd (followsApi_unfollowUser (snd (followsApi_unfollowUser pf a b)) a b))
           = tables (snd (followsApi_unfollowUser pf a b))"
proof -
  let ?pf1 = "snd (likesApi_unlikePost pf p u)"
  let ?pf2 = "snd (followsApi_unfollowUser pf a b)"
  have o1: "outage ?pf1 = None" using assms by (simp add: unlikePost_up)
  have o2: "outage ?pf2 = None" using assms by (simp add: unfollowUser_up)
  have s1: "session_uid ?pf1 = session_uid pf" using assms by (simp add: unlikePost_up)
  have s2: "session_uid ?pf2 = session_uid pf" using assms by (simp add: unfollowUser_up)
  have l1: "fst (likesApi_unlikePost pf p u) = Inr ()" using assms by (simp add: unlikePost_up)
  have l2: "tables ?pf1 = tables pf" if "\<forall>r \<in> set (likes_table pf). \<not> (l_post_id r = p \<and> l_user_id r = u)"
    using assms that
    by (auto simp add: unlikePost_up tables_def filter_id_conv)
  have l3: "fst (likesApi_unlikePost ?pf1 p u) = Inr ()" using o1 by (simp add: unlikePost_up)
  have l4: "tables (snd (likesApi_unlikePost ?pf1 p u)) = tables ?pf1"
    unfolding unlikePost_up[OF o1] s1 unfolding unlikePost_up[OF assms]
    by (simp add: tables_def)
  have f1: "fst (followsApi_unfollowUser pf a b) = Inr ()" using assms by (simp add: unfollowUser_up)
  have f2: "tables ?pf2 = tables pf" if "\<forall>r \<in> set (follows_table pf). \<not> (follower_id r = a \<and> following_id r = b)"
    using assms that
    by (auto simp add: unfollowUser_up tables_def filter_id_conv)
  have f3: "fst (followsApi_unfollowUser ?pf2 a b) = Inr ()" using o2 by (simp add: unfollowUser_up)
  have f4: "tables (snd (followsApi_unfollowUser ?pf2 a b)) = tables ?pf2"
    unfolding unfollowUser_up[OF o2] s2 unfolding unfollowUser_up[OF assms]
    by (simp add: tables_def)
  from l1 l2 l3 l4 f1 f2 f3 f4 show ?thesis by blast
qed

theorem delete_by_filter_idempotent_witness:
  "likes_table (snd (likesApi_unlikePost demo_platform ''p1'' ''u1''))
     = [\<lparr>l_post_id = ''p1'', l_user_id = ''u2''\<rparr>]
   \<and> likesApi_unlikePost (snd (likesApi_unlikePost demo_platform ''p1'' ''u1'')) ''p1'' ''u1''
     = (Inr (), (snd (likesApi_unlikePost demo_platform ''p1'' ''u1''))
                  \<lparr>received := [DeleteLikes ''p1'' ''u1'', DeleteLikes ''p1'' ''u1'']\<rparr>)
   \<and> tables (snd (likesApi_unlikePost demo_platform ''p9'' ''u1'')) = tables demo_platform
   \<and> follows_table (snd (followsApi_unfollowUser demo_platform ''u1'' ''u2'')) = []
   \<and> fst (followsApi_unfollowUser (snd (followsApi_unfollowUser demo_platform ''u1'' ''u2'')) ''u1'' ''u2'')
     = Inr ()"
  using delete_by_filter_idempotent [of demo_platform "''p1''" "''u1''" "''u1''" "''u2''"]
        delete_by_filter_idempotent [of demo_platform "''p9''" "''u1''" "''u9''" "''u2''"]
  by (simp add: demo_platform_def likesApi_unlikePost_def delete_likes_def
      followsApi_unfollowUser_def delete_follows_def throw_or_void_def done_resp_def tables_def Let_def)

section \<open>Properties of following\<close>

lemma followUser_log:
  "received (snd (followsApi_followUser pf a b)) =
     received pf @ [InsertFollow \<lparr>follower_id = a, following_id = b\<rparr>]"
  by (simp add: followsApi_followUser_def insert_follows_def Let_def split: option.splits)

lemma followUser_self:
  "(\<exists>e. fst (followsApi_followUser pf a a) = Inl e)
   \<and> follows_table (snd (followsApi_followUser pf a a)) = follows_table pf"
proof (cases "outage pf")
  case None
  then show ?thesis
    by (simp add: followsApi_followUser_def insert_follows_def throw_or_void_def failed_def Let_def)
next
  case (Some e)
  then show ?thesis
    by (simp add: followsApi_followUser_def insert_follows_def throw_or_void_def failed_def Let_def)
qed

lemma followUser_rows:
  assumes "r \<in> set (follows_table (snd (followsApi_followUser pf a b)))"
  shows "r \<in> set (follows_table pf) \<or> (a \<noteq> b \<and> r = \<lparr>follower_id = a, following_id = b\<rparr>)"
proof (cases "outage pf")
  case None
  with assms show ?thesis
    by (simp add: followsApi_followUser_def insert_follows_def Let_def split: if_splits) blast
next
  case (Some e)
  with assms show ?thesis
    by (simp add: followsApi_followUser_def insert_follows_def Let_def)
qed

lemma followUser_keeps_irreflexive:
  assumes "\<forall>r \<in> set (follows_table pf). follower_id r \<noteq> following_id r"
      and "r \<in> set (follows_table (snd (followsApi_followUser pf a b)))"
  shows "follower_id r \<noteq> following_id r"
proof -
  from followUser_rows[OF assms(2)] show ?thesis
  proof
    assume "r \<in> set (follows_table pf)"
    with assms(1) show ?thesis by simp
  next
    assume "a \<noteq> b \<and> r = \<lparr>follower_id = a, following_id = b\<rparr>"
    then show ?thesis by simp
  qed
qed

lemma handleFollow_own:
  "map_option pr_id profile = user \<Longrightarrow> handleFollow currentProfile username profile user s = (s, None)"
proof (cases user)
  case None
  then show ?thesis by (simp add: handleFollow_def)
next
  case (Some uid)
  assume "map_option pr_id profile = user"
  with Some obtain p where "profile = Some p" "pr_id p = uid" by auto
  with Some show ?thesis by (simp add: handleFollow_def isOwnProfile_def)
qed

lemma handleFollow_call:
  assumes "handleFollow currentProfile username profile user s = (s', Some (call, cap))"
  shows "\<exists>x y. x \<noteq> y \<and> (call = FollowUser x y \<or> call = UnfollowUser x y)"
proof -
  from assms obtain uid p where u: "user = Some uid" and p: "profile = Some p"
    by (auto simp: handleFollow_def split: option.splits)
  from assms u p have n: "\<not> isOwnProfile currentProfile username profile user"
    by (auto simp: handleFollow_def split: if_splits)
  then have d: "uid \<noteq> pr_id p" using u p by (auto simp: isOwnProfile_def)
  from assms u p n have "call = (if isFollowing s then UnfollowUser uid (pr_id p) else FollowUser uid (pr_id p))"
    by (simp add: handleFollow_def Let_def)
  with d show ?thesis by (cases "isFollowing s") auto
qed

text \<open>
  C5, as stated, fails: \<open>followUser\<close> does not turn a self-follow away. On a platform
  that has received nothing, \<open>followUser u1 u1\<close> sends the insert of the row (u1, u1); the
  error it throws is the platform's, for the violated CHECK constraint.
\<close>

theorem followUser_self_reaches_platform:
  "received demo_platform = []
   \<and> received (snd (followsApi_followUser demo_platform ''u1'' ''u1''))
       = [InsertFollow \<lparr>follower_id = ''u1'', following_id = ''u1''\<rparr>]
   \<and> fst (followsApi_followUser demo_platform ''u1'' ''u1'') = Inl check_violation"
  by (simp add: demo_platform_def followsApi_followUser_def insert_follows_def throw_or_void_def
      failed_def Let_def)

text \<open>
  C5, as amended. No follow row with \<open>follower_id = following_id\<close> comes into existence:
  \<open>handleFollow\<close> makes no call on the viewer's own profile, and every call it makes has two
  different ids; \<open>followUser\<close> itself checks nothing and sends the insert, which the
  platform refuses for equal ids, so that \<open>followUser a a\<close> throws and leaves the follows
  table as it was; and a follows table without self-follows stays so under every
  \<open>followUser\<close>.
\<close>

theorem no_self_follow_row:
  "(map_option pr_id profile = user \<longrightarrow>
        handleFollow currentProfile username profile user s = (s, None))
   \<and> (\<forall>s' call cap. handleFollow currentProfile username profile user s = (s', Some (call, cap))
          \<longrightarrow> (\<exists>x y. x \<noteq> y \<and> (call = FollowUser x y \<or> call = UnfollowUser x y)))
   \<and> received (snd (followsApi_followUser pf a a))
        = received pf @ [InsertFollow \<lparr>follower_id = a, following_id = a\<rparr>]
   \<and> (\<exists>e. fst (followsApi_followUser pf a a) = Inl e)
   \<and> follows_table (snd (followsApi_followUser pf a a)) = follows_table pf
   \<and> ((\<forall>r \<in> set (follows_table pf). follower_id r \<noteq> following_id r)
        \<longrightarrow> (\<forall>r \<in> set (follows_table (snd (followsApi_followUser pf x y))).
               follower_id r \<noteq> following_id r))"
proof (intro conjI)
  show "map_option pr_id profile = user \<longrightarrow>
        handleFollow currentProfile username profile user s = (s, None)"
    by (simp add: handleFollow_own)
  show "\<forall>s' call cap. handleFollow currentProfile username profile user s = (s', Some (call, cap))
          \<longrightarrow> (\<exists>x y. x \<noteq> y \<and> (call = FollowUser x y \<or> call = UnfollowUser x y))"
    by (intro allI impI) (rule handleFollow_call)
  show "received (snd (followsApi_followUser pf a a))
        = received pf @ [InsertFollow \<lparr>follower_id = a, following_id = a\<rparr>]"
    by (rule followUser_log)
  show "\<exists>e. fst (followsApi_followUser pf a a) = Inl e"
    using followUser_self[of pf a] by (rule conjunct1)
  show "follows_table (snd (followsApi_followUser pf a a)) = follows_table pf"
    using followUser_self[of pf a] by (rule conjunct2)
  show "(\<forall>r \<in> set (follows_table pf). follower_id r \<noteq> following_id r)
        \<longrightarrow> (\<forall>r \<in> set (follows_table (snd (followsApi_followUser pf x y))).
               follower_id r \<noteq> following_id r)"
    by (intro impI ballI) (rule followUser_keeps_irreflexive)
qed

theorem no_self_follow_row_witness:
  "handleFollow None (Some ''ann'') (Some \<lparr>pr_id = ''u1'', pr_username = ''ann'', pr_full_name = None,
        pr_bio = None, pr_avatar_url = None\<rparr>) (Some ''u1'') \<lparr>isFollowing = False, followersCount = 0\<rparr>
     = (\<lparr>isFollowing = False, followersCount = 0\<rparr>, None)
   \<and> handleFollow None (Some ''bob'') (Some \<lparr>pr_id = ''u2'', pr_username = ''bob'', pr_full_name = None,
        pr_bio = None, pr_avatar_url = None\<rparr>) (Some ''u1'') \<lparr>isFollowing = False, followersCount = 0\<rparr>
     = (\<lparr>isFollowing = True, followersCount = 1\<rparr>, Some (FollowUser ''u1'' ''u2'', False, 0))
   \<and> follows_table (snd (followsApi_followUser demo_platform ''u1'' ''u1''))
     = [\<lparr>follower_id = ''u1'', following_id = ''u2''\<rparr>]
   \<and> follows_table (snd (followsApi_followUser (demo_platform\<lparr>session_uid := Some ''u2''\<rparr>) ''u2'' ''u1''))
     = [\<lparr>follower_id = ''u1'', following_id = ''u2''\<rparr>, \<lparr>follower_id = ''u2'', following_id = ''u1''\<rparr>]"
  using no_self_follow_row [of "Some \<lparr>pr_id = ''u1'', pr_username = ''ann'', pr_full_name = None,
        pr_bio = None, pr_avatar_url = None\<rparr>" "Some ''u1''" None "Some ''ann''"
        "\<lparr>isFollowing = False, followersCount = 0\<rparr>" demo_platform "''u1''" "''u1''" "''u1''"]
    no_self_follow_row [of "Some \<lparr>pr_id = ''u2'', pr_username = ''bob'', pr_full_name = None,
        pr_bio = None, pr_avatar_url = None\<rparr>" "Some ''u1''" None "Some ''bob''"
        "\<lparr>isFollowing = False, followersCount = 0\<rparr>" "demo_platform\<lparr>session_uid := Some ''u2''\<rparr>" "''u1''" "''u2''" "''u1''"]
  by (simp add: handleFollow_def isOwnProfile_def demo_platform_def followsApi_followUser_def
      insert_follows_def throw_or_void_def failed_def done_resp_def Let_def)

section \<open>Properties of error handling\<close>



lemma single_none: "single [] = failed no_row"
  by (simp add: single_def)

lemma isLiked_no_row:
  assumes "outage pf = None"
      and "\<forall>r \<in> set (likes_table pf). \<not> (l_post_id r = p \<and> l_user_id r = u)"
  shows "likesApi_isLiked pf p u = Inr False"
proof -
  from assms(2) have "filter (\<lambda>r. l_post_id r = p \<and> l_user_id r = u) (likes_table pf) = []"
    by (simp add: filter_empty_conv)
  with assms(1) show ?thesis
    by (simp add: likesApi_isLiked_def select_like_single_def single_none throw_or_exists_def
        failed_def no_row_def)
qed

lemma isFollowing_no_row:
  assumes "outage pf = None"
      and "\<forall>r \<in> set (follows_table pf). \<not> (follower_id r = a \<and> following_id r = b)"
  shows "followsApi_isFollowing pf a b = Inr False"
proof -
  from assms(2) have "filter (\<lambda>r. follower_id r = a \<and> following_id r = b) (follows_table pf) = []"
    by (simp add: filter_empty_conv)
  with assms(1) show ?thesis
    by (simp add: followsApi_isFollowing_def select_follow_single_def single_none throw_or_exists_def
        failed_def no_row_def)
qed









end
